theory Spec2Isabelle
  imports Main Complex_Main "HOL-Library.Word" "HOL-Library.Signed_Division"
begin

section \<open>The part of Go's time package that zeit calls\<close>

text \<open>
  zeit stores a \<^verbatim>\<open>time.Time\<close> that has gone through \<^verbatim>\<open>t.UTC()\<close>: \<^verbatim>\<open>New\<close>,
  \<^verbatim>\<open>Scan\<close> and \<^verbatim>\<open>UnmarshalJSON\<close> all do so, and \<^verbatim>\<open>In\<close> copies the field. Such a
  value has no monotonic clock reading and its location is UTC, so it is determined by the
  instant it denotes. A \<^verbatim>\<open>time.Time\<close> is therefore modelled as that instant: the
  number of nanoseconds since January 1, year 1, 00:00:00 UTC, the epoch Go counts its
  seconds from. Go keeps the seconds in an \<^verbatim>\<open>int64\<close> and the nanoseconds in
  \<open>[0, 999999999]\<close>; the seconds here are \<open>t div 10^9\<close> and the nanoseconds
  \<open>t mod 10^9\<close>. The calendar is the proleptic Gregorian calendar of the package
  documentation, computed on unbounded integers: it agrees with Go wherever Go's own
  arithmetic does not leave its integer types.

  Go's \<^verbatim>\<open>int\<close> and \<^verbatim>\<open>int64\<close> are 64-bit words where a wrap-around can be observed
  (\<^verbatim>\<open>time.Unix\<close>, \<^verbatim>\<open>Time.Unix\<close>, the negation in \<^verbatim>\<open>AddBusinessDays\<close>, the count
  of \<^verbatim>\<open>Cycles\<close>); calendar fields and day counts are \<open>int\<close>.
\<close>

type_synonym int64 = "64 word"
type_synonym go_int = "64 word"
type_synonym Time = int
type_synonym time_Duration = int

text \<open>A \<^verbatim>\<open>*time.Location\<close> that is not nil: UTC, or a zone of the time zone
  database by its name. The rules of the zones are not part of the repository: where an
  instant is read in a zone they are a parameter, the offset of the named zone at an
  instant in seconds east of UTC.\<close>

datatype Location = UTC | Zone string

type_synonym zoneRules = "string \<Rightarrow> Time \<Rightarrow> int"

definition secondsPerDay :: int where
  "secondsPerDay = 86400"

definition nanosPerSecond :: int where
  "nanosPerSecond = 1000000000"

text \<open>\<^verbatim>\<open>unixToInternal\<close>: seconds from January 1, year 1 to January 1, 1970.\<close>

definition unixToInternal :: int where
  "unixToInternal = (1969 * 365 + 1969 div 4 - 1969 div 100 + 1969 div 400) * secondsPerDay"

text \<open>\<^verbatim>\<open>time.Unix(sec, 0)\<close>: \<^verbatim>\<open>Time{0, sec + unixToInternal, Local}\<close>, the sum taken in
  \<^verbatim>\<open>int64\<close>.\<close>

definition time_Unix :: "int64 \<Rightarrow> Time" where
  "time_Unix s = sint (s + word_of_int unixToInternal) * nanosPerSecond"

text \<open>\<^verbatim>\<open>t.Unix()\<close>: \<^verbatim>\<open>t.sec() + internalToUnix\<close>, again in \<^verbatim>\<open>int64\<close>.\<close>

definition Time_Unix :: "Time \<Rightarrow> int64" where
  "Time_Unix t = word_of_int (t div nanosPerSecond) + word_of_int (- unixToInternal)"

text \<open>\<^verbatim>\<open>t.UTC()\<close> changes the location only.\<close>

definition Time_UTC :: "Time \<Rightarrow> Time" where
  "Time_UTC t = t"

definition Time_Before :: "Time \<Rightarrow> Time \<Rightarrow> bool" where
  "Time_Before t u = (t < u)"

definition Time_After :: "Time \<Rightarrow> Time \<Rightarrow> bool" where
  "Time_After t u = (t > u)"

definition Time_Equal :: "Time \<Rightarrow> Time \<Rightarrow> bool" where
  "Time_Equal t u = (t = u)"

subsection \<open>Calendar fields\<close>

definition isLeap :: "int \<Rightarrow> bool" where
  "isLeap year = (year mod 4 = 0 \<and> (0 < year mod 100 \<or> year mod 400 = 0))"

text \<open>\<^verbatim>\<open>daysBefore[m]\<close>: days of a non-leap year before month \<open>m + 1\<close>.\<close>

definition daysBefore :: "int list" where
  "daysBefore = [0, 31, 59, 90, 120, 151, 181, 212, 243, 273, 304, 334, 365]"

text \<open>Days from January 1, year 1 to January 1 of \<open>year\<close>.\<close>

definition daysSinceYear1 :: "int \<Rightarrow> int" where
  "daysSinceYear1 year =
     365 * (year - 1) + (year - 1) div 4 - (year - 1) div 100 + (year - 1) div 400"

text \<open>The day number of an instant, counted from January 1, year 1.\<close>

definition dayNumber :: "Time \<Rightarrow> int" where
  "dayNumber t = (t div nanosPerSecond) div secondsPerDay"

text \<open>\<^verbatim>\<open>absDate\<close>, first half: the year of a day number and the day within that year
  (from 0), cutting off cycles of 400, 100, 4 and 1 years. The last 100-year cycle of
  a 400-year cycle and the last year of a 4-year cycle are one day longer, so their
  quotients are cut off at 3.\<close>

definition yearDay :: "int \<Rightarrow> int \<times> int" where
  "yearDay d0 =
     (let n400 = d0 div 146097;
          d1 = d0 - 146097 * n400;
          n100 = min 3 (d1 div 36524);
          d2 = d1 - 36524 * n100;
          n4 = d2 div 1461;
          d3 = d2 - 1461 * n4;
          n1 = min 3 (d3 div 365);
          yday = d3 - 365 * n1
      in (400 * n400 + 100 * n100 + 4 * n4 + n1 + 1, yday))"

text \<open>\<^verbatim>\<open>absDate\<close>, second half: month (1 to 12) and day of the month of a day of the
  year. The month is estimated as if every month had 31 days, and corrected.\<close>

definition monthDay :: "bool \<Rightarrow> int \<Rightarrow> int \<times> int" where
  "monthDay leap yday =
     (if leap \<and> yday = 31 + 29 - 1 then (2, 29)
      else
        let day = (if leap \<and> yday > 31 + 29 - 1 then yday - 1 else yday);
            month = day div 31;
            end_m = daysBefore ! nat (month + 1)
        in if day \<ge> end_m then (month + 2, day - end_m + 1)
           else (month + 1, day - daysBefore ! nat month + 1))"

text \<open>\<^verbatim>\<open>t.Date()\<close>\<close>

definition Time_Date :: "Time \<Rightarrow> int \<times> int \<times> int" where
  "Time_Date t =
     (let (year, yday) = yearDay (dayNumber t);
          (month, day) = monthDay (isLeap year) yday
      in (year, month, day))"

definition Time_Year :: "Time \<Rightarrow> int" where
  "Time_Year t = fst (Time_Date t)"

definition Time_Month :: "Time \<Rightarrow> int" where
  "Time_Month t = fst (snd (Time_Date t))"

definition Time_Day :: "Time \<Rightarrow> int" where
  "Time_Day t = snd (snd (Time_Date t))"

text \<open>\<^verbatim>\<open>t.Clock()\<close>\<close>

definition Time_Clock :: "Time \<Rightarrow> int \<times> int \<times> int" where
  "Time_Clock t =
     (let s = (t div nanosPerSecond) mod secondsPerDay
      in (s div 3600, (s mod 3600) div 60, s mod 60))"

definition Time_Nanosecond :: "Time \<Rightarrow> int" where
  "Time_Nanosecond t = t mod nanosPerSecond"

text \<open>\<^verbatim>\<open>t.Weekday()\<close>, Sunday = 0 to Saturday = 6. January 1 of year 1 is a Monday.\<close>

definition Sunday :: int where
  "Sunday = 0"

definition Monday :: int where
  "Monday = 1"

definition Saturday :: int where
  "Saturday = 6"

definition Time_Weekday :: "Time \<Rightarrow> int" where
  "Time_Weekday t =
     ((t div nanosPerSecond + Monday * secondsPerDay) mod (7 * secondsPerDay)) div secondsPerDay"

text \<open>\<^verbatim>\<open>t.In(loc).Weekday()\<close>: the weekday of the instant as a clock in \<open>loc\<close>
  shows it.\<close>

definition Location_offset :: "zoneRules \<Rightarrow> Location \<Rightarrow> Time \<Rightarrow> int" where
  "Location_offset rules loc t = (case loc of UTC \<Rightarrow> 0 | Zone name \<Rightarrow> rules name t)"

definition Time_In_Weekday :: "zoneRules \<Rightarrow> Time \<Rightarrow> Location \<Rightarrow> int" where
  "Time_In_Weekday rules t loc = Time_Weekday (t + Location_offset rules loc t * nanosPerSecond)"

text \<open>\<^verbatim>\<open>time.Date(year, month, day, hour, min, sec, nsec, time.UTC)\<close>. The month may
  lie outside 1 to 12 and is normalized into the year; day, hour, min, sec and nsec may
  lie outside their ranges and carry over: October 32 is November 1. Go carries
  them one into the next and then adds them up; the sum is the same.\<close>

definition time_Date :: "int \<Rightarrow> int \<Rightarrow> int \<Rightarrow> int \<Rightarrow> int \<Rightarrow> int \<Rightarrow> int \<Rightarrow> Time" where
  "time_Date year month day hour minute second nanos =
     (let m = month - 1;
          year' = year + m div 12;
          m' = m mod 12;
          d = daysSinceYear1 year' + daysBefore ! nat m'
              + (if isLeap year' \<and> m' + 1 \<ge> 3 then 1 else 0)
              + (day - 1);
          s = d * secondsPerDay + hour * 3600 + minute * 60 + second
      in s * nanosPerSecond + nanos)"

text \<open>\<^verbatim>\<open>t.AddDate(years, months, days)\<close>: the fields of \<open>t\<close> with the three numbers
  added, normalized by \<^verbatim>\<open>Date\<close>. Adding one month to October 31 gives December 1.\<close>

definition Time_AddDate :: "Time \<Rightarrow> int \<Rightarrow> int \<Rightarrow> int \<Rightarrow> Time" where
  "Time_AddDate t years months days =
     (let (year, month, day) = Time_Date t;
          (hour, minute, second) = Time_Clock t
      in time_Date (year + years) (month + months) (day + days) hour minute second
           (Time_Nanosecond t))"

text \<open>\<^verbatim>\<open>t.Sub(u)\<close>: the difference in nanoseconds as a \<^verbatim>\<open>Duration\<close> (an
  \<^verbatim>\<open>int64\<close>); a difference that does not fit is replaced by the largest or the
  smallest \<^verbatim>\<open>Duration\<close>.\<close>

definition maxDuration :: time_Duration where
  "maxDuration = 2 ^ 63 - 1"

definition minDuration :: time_Duration where
  "minDuration = - (2 ^ 63)"

definition Time_Sub :: "Time \<Rightarrow> Time \<Rightarrow> time_Duration" where
  "Time_Sub t u =
     (let d = t - u
      in if d > maxDuration then maxDuration
         else if d < minDuration then minDuration
         else d)"

text \<open>\<^verbatim>\<open>d.Hours()\<close>: \<^verbatim>\<open>float64(d / Hour) + float64(d % Hour) / (60 * 60 * 1e9)\<close>,
  with Go's truncating division. The \<^verbatim>\<open>float64\<close> is modelled by the real number it
  stands for: on a whole number of hours below \<open>2^53\<close> the floating-point operations
  are exact.\<close>

definition Hour :: time_Duration where
  "Hour = 3600 * nanosPerSecond"

definition Duration_Hours :: "time_Duration \<Rightarrow> real" where
  "Duration_Hours d = of_int (d sdiv Hour) + of_int (d smod Hour) / (60 * 60 * 1000000000)"

text \<open>The conversion \<^verbatim>\<open>int(x)\<close> of a floating-point number drops the fraction.\<close>

definition int_of_float :: "real \<Rightarrow> int" where
  "int_of_float x = (if 0 \<le> x then \<lfloor>x\<rfloor> else \<lceil>x\<rceil>)"


section \<open>zeit.go\<close>

text \<open>\<^verbatim>\<open>Zeit\<close>: an instant, kept in UTC, and the location to show it in. A
  \<^verbatim>\<open>*time.Location\<close> may be nil: that is \<open>None\<close>. The zero \<^verbatim>\<open>Zeit\<close> that
  \<^verbatim>\<open>Scan\<close> is usually called on has a nil location.\<close>

record Zeit =
  instant :: Time
  location :: "Location option"

definition New :: "Time \<Rightarrow> Location option \<Rightarrow> Zeit" where
  "New t loc =
     (let loc = (if loc = None then Some UTC else loc)
      in \<lparr>instant = Time_UTC t, location = loc\<rparr>)"

definition FromDatabase :: "int64 \<Rightarrow> Location option \<Rightarrow> Zeit" where
  "FromDatabase timestamp loc =
     (let loc = (if loc = None then Some UTC else loc)
      in New (time_Unix timestamp) loc)"

definition ToDatabase :: "Zeit \<Rightarrow> int64" where
  "ToDatabase z = Time_Unix (instant z)"

definition AddDays :: "Zeit \<Rightarrow> int \<Rightarrow> Zeit" where
  "AddDays z days = New (Time_AddDate (instant z) 0 0 days) (location z)"

text \<open>The loop of \<^verbatim>\<open>AddBusinessDays\<close>:
  \<^verbatim>\<open>for i := 0; i < days; { current = current.AddDate(0, 0, direction); ... i++ ... }\<close>.
  It has no bound of its own on the number of rounds, so not returning is the value
  \<open>None\<close>.\<close>

partial_function (option) addBusinessDays_loop :: "int \<Rightarrow> int \<Rightarrow> int \<Rightarrow> Time \<Rightarrow> Time option" where
  "addBusinessDays_loop direction days i current =
     (if i < days then
        addBusinessDays_loop direction days
          (if Time_Weekday (Time_AddDate current 0 0 direction) \<noteq> Saturday
              \<and> Time_Weekday (Time_AddDate current 0 0 direction) \<noteq> Sunday
           then i + 1 else i)
          (Time_AddDate current 0 0 direction)
      else Some current)"

text \<open>\<^verbatim>\<open>days = -days\<close> is taken in Go's \<^verbatim>\<open>int\<close>, 64 bits wide here: the negation
  of the smallest \<^verbatim>\<open>int\<close> is that same negative number.\<close>

definition AddBusinessDays :: "Zeit \<Rightarrow> go_int \<Rightarrow> Zeit option" where
  "AddBusinessDays z days =
     (let current = instant z;
          direction = (if sint days < 0 then - 1 else 1);
          days = (if sint days < 0 then - days else days)
      in map_option (\<lambda>current. New current (location z))
           (addBusinessDays_loop direction (sint days) 0 current))"

definition Before :: "Zeit \<Rightarrow> Zeit \<Rightarrow> bool" where
  "Before z other = Time_Before (instant z) (instant other)"

definition After :: "Zeit \<Rightarrow> Zeit \<Rightarrow> bool" where
  "After z other = Time_After (instant z) (instant other)"

definition Equal :: "Zeit \<Rightarrow> Zeit \<Rightarrow> bool" where
  "Equal z other = Time_Equal (instant z) (instant other)"

definition In :: "Zeit \<Rightarrow> Location option \<Rightarrow> Zeit" where
  "In z loc =
     (let loc = (if loc = None then Some UTC else loc)
      in \<lparr>instant = instant z, location = loc\<rparr>)"

text \<open>The weekday of \<^verbatim>\<open>z.Time()\<close>, which is \<^verbatim>\<open>z.instant.In(z.location)\<close>: the
  weekday on which the \<^verbatim>\<open>Zeit\<close> falls in its own zone. \<^verbatim>\<open>In\<close> panics on a nil
  location: \<open>None\<close>.\<close>

definition displayWeekday :: "zoneRules \<Rightarrow> Zeit \<Rightarrow> int option" where
  "displayWeekday rules z =
     (case location z of
        None \<Rightarrow> None
      | Some loc \<Rightarrow> Some (Time_In_Weekday rules (instant z) loc))"

subsection \<open>Scan\<close>

text \<open>The \<^verbatim>\<open>src any\<close> of \<^verbatim>\<open>Scan\<close>, by its dynamic type: an \<^verbatim>\<open>int64\<close>, a
  \<^verbatim>\<open>float64\<close>, nil, or a value of any other type, of which \<^verbatim>\<open>Scan\<close> reads the name
  of the type only (\<^verbatim>\<open>%T\<close>). Go's \<^verbatim>\<open>int\<close>, \<^verbatim>\<open>int32\<close> and \<^verbatim>\<open>uint64\<close> are such
  other types. A finite \<^verbatim>\<open>float64\<close> is modelled by the real number it stands for.\<close>

datatype float64 = Finite real | PosInf | NegInf | NaN

datatype src_value = SrcInt64 int64 | SrcFloat64 float64 | SrcNil | SrcOther string

datatype error = ErrScanNil | ErrScanType string

text \<open>The conversion \<^verbatim>\<open>int64(v)\<close> drops the fraction. Where the result does not fit
  an \<^verbatim>\<open>int64\<close> the conversion still succeeds and its value depends on the
  implementation: \<open>impl\<close> is that value.\<close>

definition int64_of_float64 :: "(float64 \<Rightarrow> int64) \<Rightarrow> float64 \<Rightarrow> int64" where
  "int64_of_float64 impl v =
     (case v of
        Finite x \<Rightarrow>
          if - (2 ^ 63) \<le> int_of_float x \<and> int_of_float x < 2 ^ 63
          then word_of_int (int_of_float x) else impl v
      | _ \<Rightarrow> impl v)"

text \<open>\<^verbatim>\<open>Scan\<close> writes to its receiver: the model returns the receiver after the call
  and the error (\<open>None\<close> is nil).\<close>

definition Scan :: "(float64 \<Rightarrow> int64) \<Rightarrow> Zeit \<Rightarrow> src_value \<Rightarrow> Zeit \<times> error option" where
  "Scan impl z src =
     (case src of
        SrcInt64 v \<Rightarrow>
          (z\<lparr>instant := Time_UTC (time_Unix v), location := Some UTC\<rparr>, None)
      | SrcFloat64 v \<Rightarrow>
          (z\<lparr>instant := Time_UTC (time_Unix (int64_of_float64 impl v)),
             location := Some UTC\<rparr>, None)
      | SrcNil \<Rightarrow> (z, Some ErrScanNil)
      | SrcOther ty \<Rightarrow> (z, Some (ErrScanType ty)))"

section \<open>duration.go\<close>

record Duration =
  start :: Zeit
  end' :: Zeit

definition Until :: "Zeit \<Rightarrow> Zeit \<Rightarrow> Duration" where
  "Until z other = \<lparr>start = z, end' = other\<rparr>"

definition ordered :: "Duration \<Rightarrow> Time \<times> Time" where
  "ordered d =
     (let s = instant (start d);
          e = instant (end' d)
      in if Time_After s e then (e, s) else (s, e))"

definition Months :: "Duration \<Rightarrow> int" where
  "Months d =
     (let (start, end') = ordered d;
          years = Time_Year end' - Time_Year start;
          months = Time_Month end' - Time_Month start;
          total = years * 12 + months;
          total = (if Time_Day end' < Time_Day start then total - 1 else total)
      in if total < 0 then 0 else total)"

definition BusinessDays :: "Duration \<Rightarrow> int" where
  "BusinessDays d =
     (let (start, end') = ordered d;
          startDate = time_Date (Time_Year start) (Time_Month start) (Time_Day start) 0 0 0 0;
          endDate = time_Date (Time_Year end') (Time_Month end') (Time_Day end') 0 0 0 0
      in if \<not> Time_Before startDate endDate then 0
         else
           let totalDays = int_of_float (Duration_Hours (Time_Sub endDate startDate) / 24);
               fullWeeks = totalDays sdiv 7;
               remaining = totalDays smod 7;
               count = fullWeeks * 5
           in fold (\<lambda>i count.
                      if Time_Weekday (Time_AddDate startDate 0 0 (fullWeeks * 7 + i)) \<noteq> Saturday
                         \<and> Time_Weekday (Time_AddDate startDate 0 0 (fullWeeks * 7 + i)) \<noteq> Sunday
                      then count + 1 else count)
                [0..remaining - 1] count)"

section \<open>billing.go\<close>

type_synonym BillingInterval = int

definition Daily :: BillingInterval where
  "Daily = 0"

definition Weekly :: BillingInterval where
  "Weekly = 1"

definition Monthly :: BillingInterval where
  "Monthly = 2"

definition Quarterly :: BillingInterval where
  "Quarterly = 3"

definition Yearly :: BillingInterval where
  "Yearly = 4"

record Period =
  StartsAt :: Zeit
  EndsAt :: Zeit

text \<open>The \<^verbatim>\<open>switch interval\<close> in the loop of \<^verbatim>\<open>Cycles\<close>: the end of the period that
  starts at \<open>current\<close>.\<close>

definition Cycles_next :: "BillingInterval \<Rightarrow> Zeit \<Rightarrow> Zeit" where
  "Cycles_next interval current =
     (if interval = Daily then AddDays current 1
      else if interval = Weekly then AddDays current 7
      else if interval = Monthly then
        New (Time_AddDate (instant current) 0 1 0) (location current)
      else if interval = Quarterly then
        New (Time_AddDate (instant current) 0 3 0) (location current)
      else if interval = Yearly then
        New (Time_AddDate (instant current) 1 0 0) (location current)
      else AddDays current 1)"

text \<open>The loop \<^verbatim>\<open>for i := range count\<close> fills \<^verbatim>\<open>periods[0]\<close>, \<^verbatim>\<open>periods[1]\<close>, ... in
  this order: the list is built from the front, \<open>n\<close> being the rounds that remain.\<close>

fun Cycles_loop :: "nat \<Rightarrow> BillingInterval \<Rightarrow> Zeit \<Rightarrow> Period list" where
  "Cycles_loop 0 interval current = []"
| "Cycles_loop (Suc n) interval current =
     \<lparr>StartsAt = current, EndsAt = Cycles_next interval current\<rparr>
       # Cycles_loop n interval (Cycles_next interval current)"

definition Cycles :: "Zeit \<Rightarrow> go_int \<Rightarrow> BillingInterval \<Rightarrow> Period list" where
  "Cycles z count interval =
     (if sint count \<le> 0 then [] else Cycles_loop (nat (sint count)) interval z)"

definition Contains :: "Period \<Rightarrow> Zeit \<Rightarrow> bool" where
  "Contains p z = (\<not> Before z (StartsAt p) \<and> Before z (EndsAt p))"


section \<open>The specification's words\<close>

text \<open>\<^verbatim>\<open>months()\<close> as the specification computes it: with the earlier instant as
  start, \<open>12 * (end.year - start.year) + (end.month - start.month)\<close>, one less if
  \<open>end.day < start.day\<close>, and never below 0.\<close>

definition months_spec :: "Time \<Rightarrow> Time \<Rightarrow> int" where
  "months_spec from to =
     (let start = min from to;
          end' = max from to;
          raw = 12 * (Time_Year end' - Time_Year start) + (Time_Month end' - Time_Month start);
          raw = (if Time_Day end' < Time_Day start then raw - 1 else raw)
      in max 0 raw)"

text \<open>A floating-point value "convertible losslessly to an integer": a whole number
  that an \<^verbatim>\<open>int64\<close> holds.\<close>

definition lossless_integer :: "float64 \<Rightarrow> bool" where
  "lossless_integer v =
     (case v of
        Finite x \<Rightarrow> of_int \<lfloor>x\<rfloor> = x \<and> - (2 ^ 63) \<le> \<lfloor>x\<rfloor> \<and> \<lfloor>x\<rfloor> < 2 ^ 63
      | _ \<Rightarrow> False)"

text \<open>The length of a calendar day in UTC, in nanoseconds.\<close>

definition dayNanos :: int where
  "dayNanos = secondsPerDay * nanosPerSecond"

text \<open>A business day: Monday to Friday, by the weekday in UTC.\<close>

definition isBusinessDay :: "Time \<Rightarrow> bool" where
  "isBusinessDay t = (Time_Weekday t \<noteq> Saturday \<and> Time_Weekday t \<noteq> Sunday)"

text \<open>Stepping one calendar day at a time from \<open>t\<close> in the direction (1 or -1): how many
  of the first \<open>k\<close> days stepped onto are business days.\<close>

fun businessSteps :: "Time \<Rightarrow> int \<Rightarrow> nat \<Rightarrow> nat" where
  "businessSteps t direction 0 = 0"
| "businessSteps t direction (Suc k) =
     businessSteps t direction k
     + (if isBusinessDay (Time_AddDate t 0 0 (direction * int (Suc k))) then 1 else 0)"

text \<open>The instant 00:00:00 UTC of the day with the number \<open>d\<close>.\<close>

definition midnight :: "int \<Rightarrow> Time" where
  "midnight d = d * dayNanos"

text \<open>The count of Monday to Friday calendar dates in the half-open interval from the
  UTC date of the earlier instant to the UTC date of the later one.\<close>

definition businessDates :: "Time \<Rightarrow> Time \<Rightarrow> nat" where
  "businessDates from to =
     length (filter (\<lambda>d. isBusinessDay (midnight d))
               [dayNumber (min from to)..dayNumber (max from to) - 1])"

section \<open>The calendar: a date and its day number\<close>


lemma divmod_pos:
  fixes x k :: int
  assumes "0 < k"
  shows "x = k * (x div k) + x mod k \<and> 0 \<le> x mod k \<and> x mod k < k"
  using assms by simp

lemma yearDay_cycles:
  "\<exists>a b c e yd. yearDay n = (400 * a + 100 * b + 4 * c + e + 1, yd)
     \<and> 0 \<le> b \<and> b \<le> 3 \<and> 0 \<le> c \<and> c \<le> 24 \<and> 0 \<le> e \<and> e \<le> 3
     \<and> 0 \<le> yd \<and> yd \<le> 365 \<and> (yd = 365 \<longrightarrow> e = 3 \<and> (c = 24 \<longrightarrow> b = 3))
     \<and> n = 146097 * a + 36524 * b + 1461 * c + 365 * e + yd"
proof -
  define a where "a = n div 146097"
  define d1 where "d1 = n - 146097 * a"
  define b where "b = min 3 (d1 div 36524)"
  define d2 where "d2 = d1 - 36524 * b"
  define c where "c = d2 div 1461"
  define d3 where "d3 = d2 - 1461 * c"
  define e where "e = min 3 (d3 div 365)"
  have yd: "yearDay n = (400 * a + 100 * b + 4 * c + e + 1, d3 - 365 * e)"
    by (simp add: yearDay_def Let_def a_def d1_def b_def d2_def c_def d3_def e_def)
  have d1: "0 \<le> d1 \<and> d1 < 146097"
    unfolding d1_def a_def using divmod_pos[of 146097 n] by linarith
  have q1: "d1 = 36524 * (d1 div 36524) + d1 mod 36524 \<and> 0 \<le> d1 mod 36524 \<and> d1 mod 36524 < 36524"
    by (rule divmod_pos) simp
  have b_cases: "(b = d1 div 36524 \<and> d1 div 36524 \<le> 3) \<or> (b = 3 \<and> 3 < d1 div 36524)"
    unfolding b_def by (auto simp: min_def)
  have b: "0 \<le> b \<and> b \<le> 3"
    using b_cases q1 d1 by linarith
  have d2: "0 \<le> d2 \<and> d2 \<le> 36524 \<and> (b < 3 \<longrightarrow> d2 < 36524)"
    unfolding d2_def using b_cases q1 d1 by linarith
  have q2: "d2 = 1461 * c + d2 mod 1461 \<and> 0 \<le> d2 mod 1461 \<and> d2 mod 1461 < 1461"
    unfolding c_def by (rule divmod_pos) simp
  have c: "0 \<le> c \<and> c \<le> 24"
    using d2 q2 by linarith
  have d3: "0 \<le> d3 \<and> d3 < 1461"
    unfolding d3_def using q2 by linarith
  have q3: "d3 = 365 * (d3 div 365) + d3 mod 365 \<and> 0 \<le> d3 mod 365 \<and> d3 mod 365 < 365"
    by (rule divmod_pos) simp
  have e_cases: "(e = d3 div 365 \<and> d3 div 365 \<le> 3) \<or> (e = 3 \<and> 3 < d3 div 365)"
    unfolding e_def by (auto simp: min_def)
  have e: "0 \<le> e \<and> e \<le> 3"
    using e_cases q3 d3 by linarith
  have r: "0 \<le> d3 - 365 * e \<and> d3 - 365 * e \<le> 365"
    using e_cases q3 d3 by linarith
  have l: "d3 - 365 * e = 365 \<longrightarrow> e = 3 \<and> (c = 24 \<longrightarrow> b = 3)"
  proof
    assume h: "d3 - 365 * e = 365"
    have e3: "e = 3" using h e_cases q3 d3 by linarith
    then have "d3 = 1460" using h by simp
    then have "c = 24 \<longrightarrow> d2 = 36524" unfolding d3_def by simp
    then have "c = 24 \<longrightarrow> b = 3" using d2 b by linarith
    with e3 show "e = 3 \<and> (c = 24 \<longrightarrow> b = 3)" by simp
  qed
  have s: "n = 146097 * a + 36524 * b + 1461 * c + 365 * e + (d3 - 365 * e)"
    unfolding d3_def d2_def d1_def by simp
  from yd b c e r l s show ?thesis by blast
qed

lemma daysSinceYear1_cycles:
  fixes a b c e :: int
  assumes "0 \<le> b \<and> b \<le> 3" "0 \<le> c \<and> c \<le> 24" "0 \<le> e \<and> e \<le> 3"
  shows "daysSinceYear1 (400 * a + 100 * b + 4 * c + e + 1)
         = 146097 * a + 36524 * b + 1461 * c + 365 * e"
proof -
  let ?y = "400 * a + 100 * b + 4 * c + e"
  have q4: "?y div 4 = 100 * a + 25 * b + c"
    by (rule int_div_pos_eq[of _ _ _ e]) (use assms in simp_all)
  have q100: "?y div 100 = 4 * a + b"
    by (rule int_div_pos_eq[of _ _ _ "4 * c + e"]) (use assms in simp_all)
  have q400: "?y div 400 = a"
    by (rule int_div_pos_eq[of _ _ _ "100 * b + 4 * c + e"]) (use assms in simp_all)
  show ?thesis
    unfolding daysSinceYear1_def using q4 q100 q400 by simp
qed

lemma isLeap_cycles:
  fixes a b c :: int
  assumes "0 \<le> b \<and> b \<le> 3" "0 \<le> c \<and> c \<le> 24" "c = 24 \<longrightarrow> b = 3"
  shows "isLeap (400 * a + 100 * b + 4 * c + 3 + 1)"
proof -
  let ?y = "400 * a + 100 * b + 4 * c + 3 + 1"
  have m4: "?y mod 4 = 0"
    by (rule int_mod_pos_eq[of _ _ "100 * a + 25 * b + c + 1"]) simp_all
  show ?thesis
  proof (cases "c = 24")
    case True
    then have b3: "b = 3" using assms by simp
    have "?y mod 400 = 0"
      by (rule int_mod_pos_eq[of _ _ "a + 1"]) (simp_all add: True b3)
    with m4 show ?thesis unfolding isLeap_def by simp
  next
    case False
    have "?y mod 100 = 4 * c + 4"
      by (rule int_mod_pos_eq[of _ _ "4 * a + b"]) (use assms False in simp_all)
    then have "0 < ?y mod 100" using assms by simp
    with m4 show ?thesis unfolding isLeap_def by simp
  qed
qed

lemma yearDay_correct:
  assumes "yearDay n = (y, yd)"
  shows "daysSinceYear1 y + yd = n \<and> 0 \<le> yd \<and> yd < 365 + (if isLeap y then 1 else 0)"
proof -
  obtain a b c e yd' where yd: "yearDay n = (400 * a + 100 * b + 4 * c + e + 1, yd')"
    and b: "0 \<le> b \<and> b \<le> 3" and c: "0 \<le> c \<and> c \<le> 24" and e: "0 \<le> e \<and> e \<le> 3"
    and r: "0 \<le> yd' \<and> yd' \<le> 365" and l: "yd' = 365 \<longrightarrow> e = 3 \<and> (c = 24 \<longrightarrow> b = 3)"
    and s: "n = 146097 * a + 36524 * b + 1461 * c + 365 * e + yd'"
    using yearDay_cycles[of n] by blast
  from yd assms have y: "y = 400 * a + 100 * b + 4 * c + e + 1" and yd'': "yd' = yd"
    by simp_all
  have sum: "daysSinceYear1 y + yd = n"
    using daysSinceYear1_cycles[OF b c e, of a] s y yd'' by simp
  have "yd = 365 \<longrightarrow> isLeap y"
    using isLeap_cycles[OF b c, of a] l y yd'' by auto
  with r yd'' have "yd < 365 + (if isLeap y then 1 else 0)"
    by (cases "yd = 365") auto
  with sum r yd'' show ?thesis by simp
qed

lemma monthDay_correct:
  assumes "0 \<le> yd" "yd < 365 + (if leap then 1 else 0)" "monthDay leap yd = (m, d)"
  shows "1 \<le> m \<and> m \<le> 12 \<and> 1 \<le> d \<and>
         daysBefore ! nat (m - 1) + (if leap \<and> m \<ge> 3 then 1 else 0) + (d - 1) = yd"
proof (cases "leap \<and> yd = 59")
  case True
  with assms show ?thesis by (simp add: monthDay_def daysBefore_def)
next
  case False
  define day where "day = (if leap \<and> yd > 59 then yd - 1 else yd)"
  define k where "k = day div 31"
  have day: "0 \<le> day \<and> day < 365" using assms False unfolding day_def by (auto split: if_splits)
  have q: "day = 31 * k + day mod 31 \<and> 0 \<le> day mod 31 \<and> day mod 31 < 31"
    unfolding k_def by (rule divmod_pos) simp
  have "0 \<le> k \<and> k \<le> 11" using day q by linarith
  then have kc: "k = 0 \<or> k = 1 \<or> k = 2 \<or> k = 3 \<or> k = 4 \<or> k = 5 \<or> k = 6 \<or> k = 7 \<or> k = 8 \<or> k = 9 \<or> k = 10 \<or> k = 11"
    by arith
  have md: "monthDay leap yd = (if day \<ge> daysBefore ! nat (k + 1) then (k + 2, day - daysBefore ! nat (k + 1) + 1)
           else (k + 1, day - daysBefore ! nat k + 1))"
    using False unfolding monthDay_def day_def k_def by (auto simp: Let_def)
  show ?thesis
    using kc
  proof (elim disjE)
  qed (use md assms(3) q day False in \<open>auto simp: daysBefore_def day_def split: if_splits\<close>)
qed



lemma nanosPerSecond_pos: "0 < nanosPerSecond"
  by (simp add: nanosPerSecond_def)

lemma secondsPerDay_pos: "0 < secondsPerDay"
  by (simp add: secondsPerDay_def)

lemma Time_Clock_sum:
  assumes "Time_Clock t = (h, mi, s)"
  shows "h * 3600 + mi * 60 + s = (t div nanosPerSecond) mod secondsPerDay"
proof -
  define x where "x = (t div nanosPerSecond) mod secondsPerDay"
  have h: "h = x div 3600" and mi: "mi = (x mod 3600) div 60" and s: "s = x mod 60"
    using assms unfolding Time_Clock_def x_def by (simp_all add: Let_def)
  have "x mod 60 = (x mod 3600) mod 60"
    by (simp add: mod_mod_cancel)
  then have "(x mod 3600) div 60 * 60 + x mod 60 = x mod 3600"
    by simp
  moreover have "x div 3600 * 3600 + x mod 3600 = x"
    by simp
  ultimately show ?thesis
    unfolding h mi s x_def[symmetric] by linarith
qed

lemma time_Date_Time_Date:
  assumes "Time_Date t = (y, m, d)"
  shows "time_Date y m (d + k) hour minute second nanos
         = ((dayNumber t + k) * secondsPerDay + hour * 3600 + minute * 60 + second)
             * nanosPerSecond + nanos"
proof -
  obtain y' yd where yd: "yearDay (dayNumber t) = (y', yd)"
    by (cases "yearDay (dayNumber t)")
  obtain m' d' where md: "monthDay (isLeap y') yd = (m', d')"
    by (cases "monthDay (isLeap y') yd")
  from assms yd md have eqs: "y' = y" "m' = m" "d' = d"
    unfolding Time_Date_def by simp_all
  note yc = yearDay_correct[OF yd]
  from yc have b: "0 \<le> yd" "yd < 365 + (if isLeap y' then 1 else 0)" by simp_all
  note mc = monthDay_correct[OF b md]
  have m: "1 \<le> m \<and> m \<le> 12" using mc eqs by simp
  then have mdiv: "(m - 1) div 12 = 0" and mmod: "(m - 1) mod 12 = m - 1"
    by simp_all
  have "daysSinceYear1 y + daysBefore ! nat (m - 1)
          + (if isLeap y \<and> m \<ge> 3 then 1 else 0) + (d - 1) = dayNumber t"
    using yc mc eqs by simp
  then have "daysSinceYear1 y + daysBefore ! nat (m - 1)
          + (if isLeap y \<and> m - 1 + 1 \<ge> 3 then 1 else 0) + (d + k - 1) = dayNumber t + k"
    by simp
  then show ?thesis
    unfolding time_Date_def Let_def mdiv mmod by simp
qed


lemma Time_AddDate_days:
  "Time_AddDate t 0 0 k = t + k * (secondsPerDay * nanosPerSecond)"
proof -
  obtain y m d where dt: "Time_Date t = (y, m, d)"
    by (cases "Time_Date t")
  obtain h mi s where cl: "Time_Clock t = (h, mi, s)"
    by (cases "Time_Clock t")
  define N where "N = nanosPerSecond"
  define S where "S = secondsPerDay"
  define x where "x = t div N"
  have "Time_AddDate t 0 0 k = time_Date y m (d + k) h mi s (Time_Nanosecond t)"
    unfolding Time_AddDate_def dt cl by simp
  also have "\<dots> = ((dayNumber t + k) * S + h * 3600 + mi * 60 + s) * N + t mod N"
    unfolding time_Date_Time_Date[OF dt] Time_Nanosecond_def N_def S_def by simp
  also have "\<dots> = ((x div S + k) * S + x mod S) * N + t mod N"
    using Time_Clock_sum[OF cl] unfolding dayNumber_def N_def S_def x_def by simp
  also have "(x div S + k) * S + x mod S = x + k * S"
    by (simp add: distrib_right)
  also have "(x + k * S) * N + t mod N = t + k * (S * N)"
    unfolding x_def by (simp add: distrib_right)
  finally show ?thesis
    unfolding N_def S_def .
qed

lemma dayNumber_shift:
  "dayNumber (t + k * (secondsPerDay * nanosPerSecond)) = dayNumber t + k"
proof -
  have "(t + k * secondsPerDay * nanosPerSecond) div nanosPerSecond
        = t div nanosPerSecond + k * secondsPerDay"
    using nanosPerSecond_pos by simp
  moreover have "(t div nanosPerSecond + k * secondsPerDay) div secondsPerDay
        = (t div nanosPerSecond) div secondsPerDay + k"
    using secondsPerDay_pos by simp
  ultimately show ?thesis
    unfolding dayNumber_def by (simp add: mult.assoc)
qed

lemma Time_Weekday_dayNumber:
  "Time_Weekday t = (dayNumber t + 1) mod 7"
proof -
  define S where "S = secondsPerDay"
  define y where "y = t div nanosPerSecond + S"
  have S: "0 < S" unfolding S_def by (rule secondsPerDay_pos)
  have "y mod (S * 7) = S * (y div S mod 7) + y mod S"
    by (rule zmod_zmult2_eq) simp
  moreover have "0 \<le> y mod S \<and> y mod S < S"
    using S by simp
  ultimately have "y mod (S * 7) div S = y div S mod 7"
    by (intro int_div_pos_eq[of _ _ _ "y mod S"]) simp_all
  moreover have "y div S = dayNumber t + 1"
    unfolding y_def dayNumber_def S_def[symmetric] using S by simp
  ultimately show ?thesis
    unfolding Time_Weekday_def Monday_def y_def S_def by (simp add: mult.commute)
qed



section \<open>Business days\<close>

lemma Time_AddDate_dayNanos: "Time_AddDate t 0 0 k = t + k * dayNanos"
  unfolding dayNanos_def by (rule Time_AddDate_days)

lemma Time_Weekday_range: "0 \<le> Time_Weekday t \<and> Time_Weekday t < 7"
  unfolding Time_Weekday_dayNumber by simp

lemma Time_Weekday_shift: "Time_Weekday (t + k * dayNanos) = (Time_Weekday t + k) mod 7"
proof -
  have "dayNumber (t + k * dayNanos) = dayNumber t + k"
    unfolding dayNanos_def by (rule dayNumber_shift)
  then have "Time_Weekday (t + k * dayNanos) = (dayNumber t + 1 + k) mod 7"
    unfolding Time_Weekday_dayNumber by (simp add: add.commute add.left_commute)
  also have "\<dots> = ((dayNumber t + 1) mod 7 + k) mod 7"
    by (simp add: mod_add_left_eq)
  finally show ?thesis
    unfolding Time_Weekday_dayNumber .
qed

lemma isBusinessDay_shift:
  "isBusinessDay (t + k * dayNanos) = ((Time_Weekday t + k) mod 7 \<noteq> 6 \<and> (Time_Weekday t + k) mod 7 \<noteq> 0)"
  unfolding isBusinessDay_def Time_Weekday_shift Saturday_def Sunday_def ..

lemma next_business_day:
  assumes "direction = 1 \<or> direction = - 1"
  shows "\<exists>k. 0 < k \<and> isBusinessDay (c + direction * int k * dayNanos)
           \<and> (\<forall>j. 0 < j \<and> j < k \<longrightarrow> \<not> isBusinessDay (c + direction * int j * dayNanos))"
proof -
  define w where "w = Time_Weekday c"
  have w: "w = 0 \<or> w = 1 \<or> w = 2 \<or> w = 3 \<or> w = 4 \<or> w = 5 \<or> w = 6"
    using Time_Weekday_range[of c] unfolding w_def by arith
  have b: "\<And>m. isBusinessDay (c + m * dayNanos) = ((w + m) mod 7 \<noteq> 6 \<and> (w + m) mod 7 \<noteq> 0)"
    unfolding w_def by (rule isBusinessDay_shift)
  have j1: "\<And>j::nat. 0 < j \<and> j < Suc 0 \<longleftrightarrow> False" by auto
  have j2: "\<And>j::nat. 0 < j \<and> j < 2 \<longleftrightarrow> j = 1" by auto
  have j3: "\<And>j::nat. 0 < j \<and> j < 3 \<longleftrightarrow> j = 1 \<or> j = 2" by auto
  from assms show ?thesis
  proof
    assume d: "direction = 1"
    consider "w = 5" | "w = 6" | "w = 0 \<or> w = 1 \<or> w = 2 \<or> w = 3 \<or> w = 4"
      using w by blast
    then show ?thesis
    proof cases
      case 1
      then show ?thesis
        by (intro exI[of _ 3]) (unfold b, auto simp: d j3)
    next
      case 2
      then show ?thesis
        by (intro exI[of _ 2]) (unfold b, auto simp: d j2)
    next
      case 3
      then show ?thesis
        by (intro exI[of _ 1]) (unfold b, auto simp: d)
    qed
  next
    assume d: "direction = - 1"
    consider "w = 1" | "w = 0" | "w = 2 \<or> w = 3 \<or> w = 4 \<or> w = 5 \<or> w = 6"
      using w by blast
    then show ?thesis
    proof cases
      case 1
      then show ?thesis
        by (intro exI[of _ 3]) (unfold b, auto simp: d j3)
    next
      case 2
      then show ?thesis
        by (intro exI[of _ 2]) (unfold b, auto simp: d j2)
    next
      case 3
      then show ?thesis
        by (intro exI[of _ 1]) (unfold b, auto simp: d)
    qed
  qed
qed


lemma addBusinessDays_loop_done:
  "\<not> i < days \<Longrightarrow> addBusinessDays_loop direction days i c = Some c"
  by (subst addBusinessDays_loop.simps) simp

lemma addBusinessDays_loop_weekend:
  assumes "i < days" "\<not> isBusinessDay (c + direction * dayNanos)"
  shows "addBusinessDays_loop direction days i c
         = addBusinessDays_loop direction days i (c + direction * dayNanos)"
  using assms
  by (subst addBusinessDays_loop.simps) (auto simp: Time_AddDate_dayNanos isBusinessDay_def)

lemma addBusinessDays_loop_business:
  assumes "i < days" "isBusinessDay (c + direction * dayNanos)"
  shows "addBusinessDays_loop direction days i c
         = addBusinessDays_loop direction days (i + 1) (c + direction * dayNanos)"
  using assms
  by (subst addBusinessDays_loop.simps) (auto simp: Time_AddDate_dayNanos isBusinessDay_def)

lemma addBusinessDays_loop_skip:
  assumes "i < days"
    and "\<forall>j. 0 < j \<and> j \<le> m \<longrightarrow> \<not> isBusinessDay (c + direction * int j * dayNanos)"
  shows "addBusinessDays_loop direction days i c
         = addBusinessDays_loop direction days i (c + direction * int m * dayNanos)"
  using assms(2)
proof (induction m)
  case 0
  show ?case by simp
next
  case (Suc m)
  then have ih: "addBusinessDays_loop direction days i c
      = addBusinessDays_loop direction days i (c + direction * int m * dayNanos)"
    by simp
  have eq: "c + direction * int m * dayNanos + direction * dayNanos
            = c + direction * int (Suc m) * dayNanos"
    by (simp add: algebra_simps)
  from Suc.prems[THEN spec, of "Suc m"]
  have "\<not> isBusinessDay (c + direction * int (Suc m) * dayNanos)"
    by simp
  then have "\<not> isBusinessDay (c + direction * int m * dayNanos + direction * dayNanos)"
    unfolding eq .
  from addBusinessDays_loop_weekend[OF assms(1) this] ih show ?case
    unfolding eq by simp
qed

lemma businessSteps_dayNanos:
  "businessSteps c direction (Suc k) =
     businessSteps c direction k
     + (if isBusinessDay (c + direction * int (Suc k) * dayNanos) then 1 else 0)"
  by (simp only: businessSteps.simps Time_AddDate_dayNanos)

lemma businessSteps_none:
  assumes "\<forall>j. 0 < j \<and> j \<le> m \<longrightarrow> \<not> isBusinessDay (c + direction * int j * dayNanos)"
  shows "businessSteps c direction m = 0"
  using assms
proof (induction m)
  case 0
  show ?case by simp
next
  case (Suc m)
  then have "businessSteps c direction m = 0" by simp
  moreover from Suc.prems[THEN spec, of "Suc m"]
  have "\<not> isBusinessDay (c + direction * int (Suc m) * dayNanos)"
    by simp
  ultimately show ?case
    unfolding businessSteps_dayNanos by simp
qed

lemma businessSteps_add:
  "businessSteps c direction (a + b)
   = businessSteps c direction a + businessSteps (c + direction * int a * dayNanos) direction b"
proof (induction b)
  case 0
  show ?case by simp
next
  case (Suc b)
  have eq: "c + direction * int a * dayNanos + direction * int (Suc b) * dayNanos
            = c + direction * int (Suc (a + b)) * dayNanos"
    by (simp add: algebra_simps)
  have "businessSteps c direction (a + Suc b) = businessSteps c direction (Suc (a + b))"
    by simp
  also have "\<dots> = businessSteps c direction (a + b)
      + (if isBusinessDay (c + direction * int (Suc (a + b)) * dayNanos) then 1 else 0)"
    by (rule businessSteps_dayNanos)
  finally show ?case
    unfolding Suc.IH businessSteps_dayNanos[of "c + direction * int a * dayNanos"] eq
    by simp
qed

lemma addBusinessDays_loop_result:
  assumes dir: "direction = 1 \<or> direction = - 1"
  shows "i \<le> days \<Longrightarrow> nat (days - i) = m \<Longrightarrow>
         \<exists>k. addBusinessDays_loop direction days i c = Some (c + direction * int k * dayNanos)
           \<and> businessSteps c direction k = m
           \<and> (i < days \<longrightarrow> 0 < k \<and> isBusinessDay (c + direction * int k * dayNanos))
           \<and> (i = days \<longrightarrow> k = 0)"
proof (induction m arbitrary: i c)
  case 0
  then have "i = days" by simp
  then have "addBusinessDays_loop direction days i c = Some (c + direction * int 0 * dayNanos)"
    by (simp add: addBusinessDays_loop_done)
  with \<open>i = days\<close> show ?case
    by (intro exI[of _ 0]) simp
next
  case (Suc m)
  then have lt: "i < days" by simp
  obtain k1 where k1: "0 < k1" "isBusinessDay (c + direction * int k1 * dayNanos)"
      "\<forall>j. 0 < j \<and> j < k1 \<longrightarrow> \<not> isBusinessDay (c + direction * int j * dayNanos)"
    using next_business_day[OF dir, of c] by blast
  define p where "p = k1 - 1"
  have k1p: "k1 = Suc p" using k1(1) unfolding p_def by simp
  have weekend: "\<forall>j. 0 < j \<and> j \<le> p \<longrightarrow> \<not> isBusinessDay (c + direction * int j * dayNanos)"
    using k1(3) unfolding k1p by simp
  define c' where "c' = c + direction * int k1 * dayNanos"
  have eq: "c + direction * int p * dayNanos + direction * dayNanos = c'"
    unfolding c'_def k1p by (simp add: algebra_simps)
  have "addBusinessDays_loop direction days i c
        = addBusinessDays_loop direction days i (c + direction * int p * dayNanos)"
    by (rule addBusinessDays_loop_skip[OF lt weekend])
  also have "\<dots> = addBusinessDays_loop direction days (i + 1) c'"
    using addBusinessDays_loop_business[OF lt, of "c + direction * int p * dayNanos" direction]
      k1(2) unfolding eq c'_def[symmetric] by simp
  finally have step: "addBusinessDays_loop direction days i c
        = addBusinessDays_loop direction days (i + 1) c'" .
  have "i + 1 \<le> days" "nat (days - (i + 1)) = m"
    using lt Suc.prems by simp_all
  from Suc.IH[OF this, of c'] obtain k2 where
    k2: "addBusinessDays_loop direction days (i + 1) c' = Some (c' + direction * int k2 * dayNanos)"
      "businessSteps c' direction k2 = m"
      "i + 1 < days \<longrightarrow> 0 < k2 \<and> isBusinessDay (c' + direction * int k2 * dayNanos)"
      "i + 1 = days \<longrightarrow> k2 = 0"
    by blast
  have land: "c' + direction * int k2 * dayNanos = c + direction * int (k1 + k2) * dayNanos"
    unfolding c'_def by (simp add: algebra_simps)
  have one: "businessSteps c direction k1 = 1"
    unfolding k1p businessSteps_dayNanos using businessSteps_none[OF weekend] k1(2)
    unfolding k1p by simp
  have count: "businessSteps c direction (k1 + k2) = Suc m"
    unfolding businessSteps_add c'_def[symmetric] one k2(2) by simp
  have bus: "isBusinessDay (c + direction * int (k1 + k2) * dayNanos)"
  proof (cases "i + 1 < days")
    case True
    with k2(3) show ?thesis unfolding land by simp
  next
    case False
    with lt have "i + 1 = days" by simp
    with k2(4) have "k2 = 0" by simp
    with k1(2) show ?thesis by simp
  qed
  from step k2(1) land count bus k1(1) lt show ?case
    by (intro exI[of _ "k1 + k2"]) simp
qed


lemma sint_minus_int64:
  fixes n :: "64 word"
  assumes "sint n \<noteq> - (2 ^ 63)"
  shows "sint (- n) = - sint n"
proof -
  have r: "- (2 ^ 63) \<le> sint n \<and> sint n < 2 ^ 63"
    using sint_ge[of n] sint_lt[of n] by simp
  have "sint (- n) = signed_take_bit 63 (- sint n)"
    by (simp add: sint_word_ariths)
  also have "\<dots> = - sint n"
    by (rule signed_take_bit_int_eq_self) (use r assms in simp_all)
  finally show ?thesis .
qed

text \<open>The scenarios of the tests: Friday 2024-01-19 plus one business day is Monday
  2024-01-22, Monday 2024-01-15 minus one is Friday 2024-01-12. At the smallest
  \<^verbatim>\<open>int\<close> the negation wraps, the loop does not run, and the start is returned.\<close>

lemma AddBusinessDays_Friday_plus_1:
  "AddBusinessDays (New (time_Date 2024 1 19 10 0 0 0) (Some UTC)) 1
     = Some (New (time_Date 2024 1 22 10 0 0 0) (Some UTC))"
  by (simp add: AddBusinessDays_def addBusinessDays_loop.simps New_def Time_UTC_def
      Time_AddDate_days Time_Weekday_def time_Date_def daysSinceYear1_def daysBefore_def
      isLeap_def secondsPerDay_def nanosPerSecond_def Monday_def Saturday_def Sunday_def)

lemma AddBusinessDays_Monday_minus_1:
  "AddBusinessDays (New (time_Date 2024 1 15 10 0 0 0) (Some UTC)) (- 1)
     = Some (New (time_Date 2024 1 12 10 0 0 0) (Some UTC))"
  by (simp add: AddBusinessDays_def addBusinessDays_loop.simps New_def Time_UTC_def
      Time_AddDate_days Time_Weekday_def time_Date_def daysSinceYear1_def daysBefore_def
      isLeap_def secondsPerDay_def nanosPerSecond_def Monday_def Saturday_def Sunday_def)

lemma AddBusinessDays_min_int:
  "AddBusinessDays z (- (2 ^ 63)) = Some (New (instant z) (location z))"
proof -
  have "sint (- (2 ^ 63) :: go_int) = - (2 ^ 63)"
    by simp
  then show ?thesis
    by (simp add: AddBusinessDays_def addBusinessDays_loop_done)
qed


text \<open>What the loop returns, for every zone: with the count 0 the start; with any other
  count (the smallest \<^verbatim>\<open>int\<close> apart) the instant \<open>k > 0\<close> calendar days after or
  before the start that the loop reaches when it has counted \<open>|n|\<close> days whose weekday,
  read on the instant itself, is Monday to Friday.\<close>

lemma AddBusinessDays_result:
  "(n = 0 \<longrightarrow> AddBusinessDays z n = Some (New (instant z) (location z)))
   \<and> (n \<noteq> 0 \<and> sint n \<noteq> - (2 ^ 63) \<longrightarrow>
        (\<exists>k. 0 < k
           \<and> AddBusinessDays z n
               = Some (New (Time_AddDate (instant z) 0 0 (sgn (sint n) * int k)) (location z))
           \<and> isBusinessDay (Time_AddDate (instant z) 0 0 (sgn (sint n) * int k))
           \<and> businessSteps (instant z) (sgn (sint n)) k = nat \<bar>sint n\<bar>))"
proof (intro conjI impI)
  assume "n = 0"
  then show "AddBusinessDays z n = Some (New (instant z) (location z))"
    by (simp add: AddBusinessDays_def addBusinessDays_loop_done)
next
  assume a: "n \<noteq> 0 \<and> sint n \<noteq> - (2 ^ 63)"
  then have nz: "sint n \<noteq> 0" by (simp add: signed_eq_0_iff)
  define direction :: int where "direction = (if sint n < 0 then - 1 else 1)"
  define days :: int where "days = sint (if sint n < 0 then - n else n)"
  have dir: "direction = 1 \<or> direction = - 1"
    unfolding direction_def by simp
  have sgn: "sgn (sint n) = direction"
    unfolding direction_def using nz by (simp add: sgn_if)
  have days: "days = \<bar>sint n\<bar>"
    unfolding days_def using a by (simp add: sint_minus_int64)
  have pos: "0 < days" using days nz by simp
  have run: "AddBusinessDays z n
      = map_option (\<lambda>current. New current (location z))
          (addBusinessDays_loop direction days 0 (instant z))"
    unfolding AddBusinessDays_def direction_def days_def by (simp add: Let_def)
  have "0 \<le> days" "nat (days - 0) = nat days" using pos by simp_all
  from addBusinessDays_loop_result[OF dir this, of "instant z"] pos obtain k where
    k: "addBusinessDays_loop direction days 0 (instant z)
          = Some (instant z + direction * int k * dayNanos)"
      "businessSteps (instant z) direction k = nat days"
      "0 < k" "isBusinessDay (instant z + direction * int k * dayNanos)"
    by blast
  have t: "Time_AddDate (instant z) 0 0 (direction * int k)
           = instant z + direction * int k * dayNanos"
    by (rule Time_AddDate_dayNanos)
  show "\<exists>k. 0 < k
           \<and> AddBusinessDays z n
               = Some (New (Time_AddDate (instant z) 0 0 (sgn (sint n) * int k)) (location z))
           \<and> isBusinessDay (Time_AddDate (instant z) 0 0 (sgn (sint n) * int k))
           \<and> businessSteps (instant z) (sgn (sint n)) k = nat \<bar>sint n\<bar>"
    unfolding sgn
    using k run t days by (intro exI[of _ k]) simp
qed

lemma displayWeekday_UTC:
  assumes "loc = None \<or> loc = Some UTC"
  shows "displayWeekday rules (New t loc) = Some (Time_Weekday t)"
  using assms
  by (auto simp: displayWeekday_def New_def Time_UTC_def Time_In_Weekday_def Location_offset_def)

lemma time_Date_2024_01_scenarios:
  "time_Date 2024 1 20 10 0 0 0 = 63841341600000000000"
  "time_Date 2024 1 18 20 0 0 0 = 63841204800000000000"
  "time_Date 2024 1 19 20 0 0 0 = 63841291200000000000"
  by (simp_all add: time_Date_def daysSinceYear1_def daysBefore_def isLeap_def
      secondsPerDay_def nanosPerSecond_def)

text \<open>C2, as stated, at two inputs. At a Saturday with the count 0 the loop does not run
  and the Saturday is returned. From Thursday 2024-01-18T20:00:00Z in the zone Asia/Tokyo
  (9 hours east of UTC all year) one business day leads to 2024-01-19T20:00:00Z, which in
  that zone is Saturday 2024-01-20, 05:00.\<close>

theorem AddBusinessDays_weekend_counterexample:
  "AddBusinessDays (New (time_Date 2024 1 20 10 0 0 0) (Some UTC)) 0
     = Some (New (time_Date 2024 1 20 10 0 0 0) (Some UTC))
   \<and> displayWeekday (\<lambda>name t. 0) (New (time_Date 2024 1 20 10 0 0 0) (Some UTC)) = Some Saturday
   \<and> AddBusinessDays (New (time_Date 2024 1 18 20 0 0 0) (Some (Zone ''Asia/Tokyo''))) 1
     = Some (New (time_Date 2024 1 19 20 0 0 0) (Some (Zone ''Asia/Tokyo'')))
   \<and> displayWeekday (\<lambda>name t. if name = ''Asia/Tokyo'' then 9 * 3600 else 0)
         (New (time_Date 2024 1 19 20 0 0 0) (Some (Zone ''Asia/Tokyo''))) = Some Saturday"
  unfolding time_Date_2024_01_scenarios
  by (simp add: AddBusinessDays_def addBusinessDays_loop.simps New_def Time_UTC_def
      Time_AddDate_days Time_Weekday_def displayWeekday_def Time_In_Weekday_def
      Location_offset_def secondsPerDay_def nanosPerSecond_def Monday_def Saturday_def
      Sunday_def)


text \<open>C2, amended. With the count 0 the start is returned as it is. For a \<^verbatim>\<open>Zeit\<close>
  whose zone is UTC (or nil, which \<^verbatim>\<open>New\<close> turns into UTC) and any other count (the
  smallest \<^verbatim>\<open>int\<close> apart) the loop returns, and its result lies \<open>k > 0\<close> calendar days
  after the start for a positive count and before it for a negative one, where the day
  reached is not a Saturday or Sunday and exactly \<open>|n|\<close> of the \<open>k\<close> days stepped onto are
  Monday to Friday. The location is kept.\<close>

theorem AddBusinessDays_steps:
  "(n = 0 \<longrightarrow> AddBusinessDays z n = Some (New (instant z) (location z)))
   \<and> (n \<noteq> 0 \<and> sint n \<noteq> - (2 ^ 63) \<and> (location z = None \<or> location z = Some UTC) \<longrightarrow>
        (\<exists>k w. 0 < k
           \<and> AddBusinessDays z n
               = Some (New (Time_AddDate (instant z) 0 0 (sgn (sint n) * int k)) (location z))
           \<and> displayWeekday rules
                 (New (Time_AddDate (instant z) 0 0 (sgn (sint n) * int k)) (location z)) = Some w
           \<and> w \<noteq> Saturday \<and> w \<noteq> Sunday
           \<and> businessSteps (instant z) (sgn (sint n)) k = nat \<bar>sint n\<bar>))"
proof (intro conjI impI)
  assume "n = 0"
  with AddBusinessDays_result[of n z]
  show "AddBusinessDays z n = Some (New (instant z) (location z))"
    by simp
next
  assume a: "n \<noteq> 0 \<and> sint n \<noteq> - (2 ^ 63) \<and> (location z = None \<or> location z = Some UTC)"
  with AddBusinessDays_result[of n z] obtain k where k: "0 < k"
    "AddBusinessDays z n
       = Some (New (Time_AddDate (instant z) 0 0 (sgn (sint n) * int k)) (location z))"
    "isBusinessDay (Time_AddDate (instant z) 0 0 (sgn (sint n) * int k))"
    "businessSteps (instant z) (sgn (sint n)) k = nat \<bar>sint n\<bar>"
    by blast
  from a have "displayWeekday rules
      (New (Time_AddDate (instant z) 0 0 (sgn (sint n) * int k)) (location z))
      = Some (Time_Weekday (Time_AddDate (instant z) 0 0 (sgn (sint n) * int k)))"
    by (intro displayWeekday_UTC) simp
  with k show "\<exists>k w. 0 < k
           \<and> AddBusinessDays z n
               = Some (New (Time_AddDate (instant z) 0 0 (sgn (sint n) * int k)) (location z))
           \<and> displayWeekday rules
                 (New (Time_AddDate (instant z) 0 0 (sgn (sint n) * int k)) (location z)) = Some w
           \<and> w \<noteq> Saturday \<and> w \<noteq> Sunday
           \<and> businessSteps (instant z) (sgn (sint n)) k = nat \<bar>sint n\<bar>"
    unfolding isBusinessDay_def by blast
qed

theorem AddBusinessDays_steps_witness:
  "(\<exists>k w. 0 < k
      \<and> AddBusinessDays (New (time_Date 2024 1 19 10 0 0 0) (Some UTC)) 1
          = Some (New (Time_AddDate (time_Date 2024 1 19 10 0 0 0) 0 0 (int k)) (Some UTC))
      \<and> displayWeekday (\<lambda>name t. 0)
            (New (Time_AddDate (time_Date 2024 1 19 10 0 0 0) 0 0 (int k)) (Some UTC)) = Some w
      \<and> w \<noteq> Saturday \<and> w \<noteq> Sunday
      \<and> businessSteps (time_Date 2024 1 19 10 0 0 0) 1 k = 1)
   \<and> AddBusinessDays (New (time_Date 2024 1 19 10 0 0 0) (Some UTC)) 0
       = Some (New (time_Date 2024 1 19 10 0 0 0) (Some UTC))"
proof -
  have z: "instant (New (time_Date 2024 1 19 10 0 0 0) (Some UTC)) = time_Date 2024 1 19 10 0 0 0"
      "location (New (time_Date 2024 1 19 10 0 0 0) (Some UTC)) = Some UTC"
    by (simp_all add: New_def Time_UTC_def)
  have one: "(1 :: go_int) \<noteq> 0 \<and> sint (1 :: go_int) \<noteq> - (2 ^ 63)
             \<and> (Some UTC = None \<or> Some UTC = Some UTC)"
    by simp
  from AddBusinessDays_steps
    [of 1 "New (time_Date 2024 1 19 10 0 0 0) (Some UTC)" "\<lambda>name t. 0"] one
  have "\<exists>k w. 0 < k
      \<and> AddBusinessDays (New (time_Date 2024 1 19 10 0 0 0) (Some UTC)) 1
          = Some (New (Time_AddDate (time_Date 2024 1 19 10 0 0 0) 0 0 (int k)) (Some UTC))
      \<and> displayWeekday (\<lambda>name t. 0)
            (New (Time_AddDate (time_Date 2024 1 19 10 0 0 0) 0 0 (int k)) (Some UTC)) = Some w
      \<and> w \<noteq> Saturday \<and> w \<noteq> Sunday
      \<and> businessSteps (time_Date 2024 1 19 10 0 0 0) 1 k = 1"
    unfolding z by simp
  moreover from AddBusinessDays_steps
    [of 0 "New (time_Date 2024 1 19 10 0 0 0) (Some UTC)" "\<lambda>name t. 0"]
  have "AddBusinessDays (New (time_Date 2024 1 19 10 0 0 0) (Some UTC)) 0
       = Some (New (time_Date 2024 1 19 10 0 0 0) (Some UTC))"
    unfolding z by simp
  ultimately show ?thesis by simp
qed


section \<open>Business days between two dates\<close>

lemma dayNumber_midnight: "dayNumber (midnight d) = d"
  using dayNumber_shift[of 0 d] unfolding midnight_def dayNanos_def
  by (simp add: dayNumber_def)

lemma dayNumber_mono: "a \<le> b \<Longrightarrow> dayNumber a \<le> dayNumber b"
  unfolding dayNumber_def
  by (intro zdiv_mono1) (simp_all add: nanosPerSecond_def secondsPerDay_def)

lemma isBusinessDay_midnight:
  "isBusinessDay (midnight d) = ((d + 1) mod 7 \<noteq> 6 \<and> (d + 1) mod 7 \<noteq> 0)"
  unfolding isBusinessDay_def Time_Weekday_dayNumber dayNumber_midnight Saturday_def Sunday_def ..

lemma time_Date_midnight:
  "time_Date (Time_Year t) (Time_Month t) (Time_Day t) 0 0 0 0 = midnight (dayNumber t)"
proof -
  obtain y m d where dt: "Time_Date t = (y, m, d)"
    by (cases "Time_Date t")
  from time_Date_Time_Date[OF dt, of 0 0 0 0 0] show ?thesis
    unfolding Time_Year_def Time_Month_def Time_Day_def dt midnight_def dayNanos_def
    by (simp add: mult.assoc)
qed

lemma upto_7: "[s..s + 6] = [s, s + 1, s + 2, s + 3, s + 4, s + 5, s + 6]"
  by (simp add: upto_rec1)



lemma business_week:
  "length (filter (\<lambda>d. isBusinessDay (midnight d)) [s..s + 6]) = 5"
proof -
  define r where "r = s mod 7"
  have "0 \<le> r \<and> r < 7" unfolding r_def by simp
  then have r: "r = 0 \<or> r = 1 \<or> r = 2 \<or> r = 3 \<or> r = 4 \<or> r = 5 \<or> r = 6"
    by arith
  have P: "isBusinessDay (midnight (s + c)) = ((r + (c + 1)) mod 7 \<noteq> 6 \<and> (r + (c + 1)) mod 7 \<noteq> 0)" for c
  proof -
    have "(s + c + 1) mod 7 = (r + (c + 1)) mod 7"
      unfolding r_def by (simp add: mod_add_left_eq add.assoc)
    then show ?thesis
      unfolding isBusinessDay_midnight by simp
  qed
  have l: "[s..s + 6] = [s + 0, s + 1, s + 2, s + 3, s + 4, s + 5, s + 6]"
    unfolding upto_7 by simp
  have "length (filter (\<lambda>d. isBusinessDay (midnight d))
          [s + 0, s + 1, s + 2, s + 3, s + 4, s + 5, s + 6]) = 5"
    unfolding filter.simps P
    using r by (elim disjE) simp_all
  then show ?thesis
    unfolding l .
qed

lemma upto_split_at:
  fixes s m e :: int
  assumes "s \<le> m" "m \<le> e"
  shows "[s..e - 1] = [s..m - 1] @ [m..e - 1]"
proof (cases "s = m")
  case True
  then show ?thesis by simp
next
  case False
  with assms have "s \<le> m - 1" "m - 1 \<le> e - 1" by simp_all
  from upto_split2[OF this] show ?thesis by simp
qed

lemma fold_count:
  "fold (\<lambda>i count. if P (a + i) then count + 1 else count) [0..int n - 1] (c :: int)
   = c + int (length (filter P [a..a + int n - 1]))"
proof (induction n)
  case 0
  show ?case by simp
next
  case (Suc n)
  have l: "[0..int (Suc n) - 1] = [0..int n - 1] @ [int n]"
    using upto_rec2[of 0 "int n"] by simp
  have r: "[a..a + int (Suc n) - 1] = [a..a + int n - 1] @ [a + int n]"
    using upto_rec2[of a "a + int n"] by simp
  show ?case
    unfolding l r using Suc.IH by simp
qed


lemma business_weeks:
  "length (filter (\<lambda>d. isBusinessDay (midnight d)) [s..s + 7 * int w - 1]) = 5 * w"
proof (induction w)
  case 0
  show ?case by simp
next
  case (Suc w)
  define m where "m = s + 7 * int w"
  have e: "s + 7 * int (Suc w) - 1 = m + 6"
    unfolding m_def by simp
  have e7: "m + 7 - 1 = m + 6"
    by simp
  have "s \<le> m" "m \<le> m + 7"
    by (simp_all add: m_def)
  from upto_split_at[OF this] have split: "[s..m + 6] = [s..m - 1] @ [m..m + 6]"
    unfolding e7 .
  have ih: "length (filter (\<lambda>d. isBusinessDay (midnight d)) [s..m - 1]) = 5 * w"
    unfolding m_def by (rule Suc.IH)
  show ?case
    unfolding e split filter_append length_append ih business_week by simp
qed

lemma business_dates_weeks:
  fixes s e :: int
  assumes "s \<le> e"
  shows "int (length (filter (\<lambda>d. isBusinessDay (midnight d)) [s..e - 1]))
         = 5 * ((e - s) div 7)
           + int (length (filter (\<lambda>d. isBusinessDay (midnight d))
                            [s + 7 * ((e - s) div 7)..e - 1]))"
proof -
  define w where "w = nat ((e - s) div 7)"
  have w: "int w = (e - s) div 7"
    unfolding w_def using assms by (simp add: pos_imp_zdiv_nonneg_iff)
  have "e - s = 7 * ((e - s) div 7) + (e - s) mod 7 \<and> 0 \<le> (e - s) mod 7"
    by simp
  then have le: "7 * ((e - s) div 7) \<le> e - s"
    by linarith
  have "[s..e - 1] = [s..(s + 7 * int w) - 1] @ [s + 7 * int w..e - 1]"
    by (rule upto_split_at) (use le w in simp_all)
  then show ?thesis
    unfolding filter_append length_append w[symmetric]
    using business_weeks[of s w] by simp
qed


lemma dayNanos_pos: "0 < dayNanos"
  by (simp add: dayNanos_def secondsPerDay_def nanosPerSecond_def)

lemma Time_AddDate_midnight: "Time_AddDate (midnight s) 0 0 k = midnight (s + k)"
  unfolding Time_AddDate_dayNanos midnight_def by (simp add: distrib_right)

lemma ordered_min_max:
  "ordered d = (min (instant (start d)) (instant (end' d)),
                max (instant (start d)) (instant (end' d)))"
  by (simp add: ordered_def Time_After_def Let_def min_def max_def)

lemma Time_Before_midnight: "Time_Before (midnight s) (midnight e) = (s < e)"
  unfolding Time_Before_def midnight_def using dayNanos_pos by simp

lemma Time_Sub_midnight:
  assumes "0 \<le> e - s" "e - s \<le> 106751"
  shows "Time_Sub (midnight e) (midnight s) = (e - s) * dayNanos"
proof -
  have d: "midnight e - midnight s = (e - s) * dayNanos"
    unfolding midnight_def by (simp add: left_diff_distrib)
  have "(e - s) * dayNanos \<le> 106751 * dayNanos"
    using assms(2) dayNanos_pos by (intro mult_right_mono) simp_all
  also have "\<dots> \<le> maxDuration"
    by (simp add: dayNanos_def secondsPerDay_def nanosPerSecond_def maxDuration_def)
  finally have hi: "\<not> (e - s) * dayNanos > maxDuration"
    by simp
  have "0 \<le> (e - s) * dayNanos"
    using assms(1) dayNanos_pos by simp
  then have lo: "\<not> (e - s) * dayNanos < minDuration"
    by (simp add: minDuration_def)
  show ?thesis
    unfolding Time_Sub_def Let_def d using hi lo by simp
qed

lemma Duration_Hours_days: "Duration_Hours (T * dayNanos) = of_int (24 * T)"
proof -
  have h: "T * dayNanos = (24 * T) * Hour"
    by (simp add: dayNanos_def Hour_def secondsPerDay_def)
  have dvd: "Hour dvd (24 * T) * Hour"
    by simp
  have pos: "Hour \<noteq> 0"
    by (simp add: Hour_def nanosPerSecond_def)
  have q: "((24 * T) * Hour) sdiv Hour = 24 * T"
    unfolding signed_divide_int_eq_divide_int using dvd pos by simp
  have r: "((24 * T) * Hour) smod Hour = 0"
    unfolding signed_modulo_int_eq_modulo_int using dvd by simp
  show ?thesis
    unfolding Duration_Hours_def h q r by simp
qed

lemma int_of_float_days: "int_of_float (of_int (24 * T) / 24) = T"
proof -
  have "(of_int (24 * T) :: real) / 24 = of_int T"
    by simp
  then show ?thesis
    unfolding int_of_float_def by simp
qed

lemma sdiv_smod_7:
  fixes T :: int
  assumes "0 \<le> T"
  shows "T sdiv 7 = T div 7" and "T smod 7 = T mod 7"
  using assms by (simp_all add: signed_divide_int_def signed_modulo_int_def sgn_if)

lemma BusinessDays_midnight:
  fixes s e :: int
  assumes d: "dayNumber (min (instant (start d)) (instant (end' d))) = s"
             "dayNumber (max (instant (start d)) (instant (end' d))) = e"
    and T: "e - s \<le> 106751"
  shows "BusinessDays d = int (length (filter (\<lambda>d. isBusinessDay (midnight d)) [s..e - 1]))"
proof -
  have se: "s \<le> e"
    using dayNumber_mono[of "min (instant (start d)) (instant (end' d))"
        "max (instant (start d)) (instant (end' d))"] d by simp
  show ?thesis
  proof (cases "s < e")
    case False
    then have "BusinessDays d = 0"
      unfolding BusinessDays_def ordered_min_max
      by (simp add: time_Date_midnight d Time_Before_midnight)
    with False show ?thesis by simp
  next
    case True
    define T where "T = e - s"
    have Tpos: "0 \<le> T" "T \<le> 106751" using True T unfolding T_def by simp_all
    have "Time_Sub (midnight e) (midnight s) = T * dayNanos"
      unfolding T_def by (rule Time_Sub_midnight) (use Tpos in \<open>simp_all add: T_def\<close>)
    then have total: "int_of_float (Duration_Hours (Time_Sub (midnight e) (midnight s)) / 24) = T"
      by (simp only: Duration_Hours_days int_of_float_days)
    define n where "n = nat (T mod 7)"
    have n: "T mod 7 = int n" unfolding n_def by simp
    have wd: "(if Time_Weekday (Time_AddDate (midnight s) 0 0 (T div 7 * 7 + i)) \<noteq> Saturday
                 \<and> Time_Weekday (Time_AddDate (midnight s) 0 0 (T div 7 * 7 + i)) \<noteq> Sunday
              then count + 1 else count)
            = (if isBusinessDay (midnight ((s + 7 * (T div 7)) + i)) then count + 1 else count)"
      for i and count :: int
      unfolding Time_AddDate_midnight isBusinessDay_def by (simp add: algebra_simps)
    have "BusinessDays d
        = fold (\<lambda>i count. if isBusinessDay (midnight ((s + 7 * (T div 7)) + i))
                            then count + 1 else count)
            [0..int n - 1] (T div 7 * 5)"
      unfolding BusinessDays_def ordered_min_max
      using True
      by (simp add: time_Date_midnight d Time_Before_midnight total Let_def
          sdiv_smod_7[OF Tpos(1)] wd n)
    also have "\<dots> = T div 7 * 5
        + int (length (filter (\<lambda>d. isBusinessDay (midnight d))
                 [s + 7 * (T div 7)..s + 7 * (T div 7) + int n - 1]))"
      by (rule fold_count)
    also have "s + 7 * (T div 7) + int n = e"
      unfolding n[symmetric] T_def by simp
    finally show ?thesis
      using business_dates_weeks[OF se] unfolding T_def by simp
  qed
qed


text \<open>Beyond 106751 days the difference of the two midnights does not fit a
  \<^verbatim>\<open>Duration\<close>: \<^verbatim>\<open>Sub\<close> returns the largest one, 106751 days and a fraction, and the
  count is that of the first 106751 days.\<close>


lemma Time_Sub_saturates:
  assumes "106751 < e - s"
  shows "Time_Sub (midnight e) (midnight s) = maxDuration"
proof -
  have d: "midnight e - midnight s = (e - s) * dayNanos"
    unfolding midnight_def by (simp add: left_diff_distrib)
  have "maxDuration < 106752 * dayNanos"
    by (simp add: dayNanos_def secondsPerDay_def nanosPerSecond_def maxDuration_def)
  also have "\<dots> \<le> (e - s) * dayNanos"
    using assms dayNanos_pos by (intro mult_right_mono) simp_all
  finally show ?thesis
    unfolding Time_Sub_def Let_def d by simp
qed

lemma totalDays_saturated: "int_of_float (Duration_Hours maxDuration / 24) = 106751"
proof -
  have q: "maxDuration sdiv Hour = 2562047"
    by (simp add: maxDuration_def Hour_def nanosPerSecond_def signed_divide_int_def)
  have r: "maxDuration smod Hour = 2836854775807"
    by (simp add: maxDuration_def Hour_def nanosPerSecond_def signed_modulo_int_def)
  have h: "Duration_Hours maxDuration = 2562047 + 2836854775807 / 3600000000000"
    unfolding Duration_Hours_def q r by simp
  have fl: "\<lfloor>(2562047 + 2836854775807 / 3600000000000) / (24 :: real)\<rfloor> = 106751"
    by (simp add: floor_eq_iff)
  have nonneg: "0 \<le> (2562047 + 2836854775807 / 3600000000000) / (24 :: real)"
    by simp
  show ?thesis
    unfolding int_of_float_def h using nonneg fl by (simp only: if_True)
qed


lemma BusinessDays_saturated:
  fixes s e :: int
  assumes d: "dayNumber (min (instant (start d)) (instant (end' d))) = s"
             "dayNumber (max (instant (start d)) (instant (end' d))) = e"
    and T: "106751 < e - s"
  shows "BusinessDays d = 76250 + (if isBusinessDay (midnight (s + 106750)) then 1 else 0)"
proof -
  have lt: "s < e" using T by simp
  have total: "int_of_float (Duration_Hours (Time_Sub (midnight e) (midnight s)) / 24) = 106751"
    unfolding Time_Sub_saturates[OF T] by (rule totalDays_saturated)
  have w: "(106751 :: int) sdiv 7 = 15250" "(106751 :: int) smod 7 = 1"
    by (simp_all add: signed_divide_int_def signed_modulo_int_def)
  have l: "[0..(1 :: int) - 1] = [0]"
    by simp
  show ?thesis
    unfolding BusinessDays_def ordered_min_max
    using lt
    by (simp add: time_Date_midnight d Time_Before_midnight total Let_def w l
        Time_AddDate_midnight isBusinessDay_def)
qed

lemma midnight_1700: "time_Date 1700 1 1 0 0 0 0 = midnight 620547"
  by (simp add: time_Date_def daysSinceYear1_def daysBefore_def isLeap_def midnight_def
      dayNanos_def secondsPerDay_def nanosPerSecond_def)

lemma midnight_2000: "time_Date 2000 1 1 0 0 0 0 = midnight 730119"
  by (simp add: time_Date_def daysSinceYear1_def daysBefore_def isLeap_def midnight_def
      dayNanos_def secondsPerDay_def nanosPerSecond_def)

lemma businessDates_weeks_le:
  "5 * ((dayNumber (max a b) - dayNumber (min a b)) div 7) \<le> int (businessDates a b)"
proof -
  define s where "s = dayNumber (min a b)"
  define e where "e = dayNumber (max a b)"
  define x where "x = length (filter (\<lambda>d. isBusinessDay (midnight d)) [s + 7 * ((e - s) div 7)..e - 1])"
  have "s \<le> e"
    unfolding s_def e_def by (rule dayNumber_mono) simp
  from business_dates_weeks[OF this]
  have "int (businessDates a b) = 5 * ((e - s) div 7) + int x"
    unfolding businessDates_def s_def[symmetric] e_def[symmetric] x_def .
  then show ?thesis
    unfolding s_def[symmetric] e_def[symmetric] by linarith
qed

lemma dayNumber_2024_01_15: "dayNumber (time_Date 2024 1 15 10 0 0 0) = 738899"
  by (simp add: time_Date_def daysSinceYear1_def daysBefore_def isLeap_def dayNumber_def
      secondsPerDay_def nanosPerSecond_def)

lemma dayNumber_2024_01_19: "dayNumber (time_Date 2024 1 19 10 0 0 0) = 738903"
  by (simp add: time_Date_def daysSinceYear1_def daysBefore_def isLeap_def dayNumber_def
      secondsPerDay_def nanosPerSecond_def)


lemma businessDates_Monday_to_Friday:
  "businessDates (time_Date 2024 1 15 10 0 0 0) (time_Date 2024 1 19 10 0 0 0) = 4"
proof -
  have lt: "time_Date 2024 1 15 10 0 0 0 < time_Date 2024 1 19 10 0 0 0"
    by code_simp
  have l: "[738899..738903 - 1] = [738899, 738900, 738901, 738902]"
    by (simp add: upto_rec1)
  show ?thesis
    unfolding businessDates_def using lt
    by (simp add: min_def max_def dayNumber_2024_01_15 dayNumber_2024_01_19 l
        isBusinessDay_midnight)
qed

text \<open>C7, at the dates 1700-01-01 and 2000-01-01, 109572 days apart: the code returns
  76251, and at least 78265 of the dates between them are business days.\<close>

theorem BusinessDays_long_span:
  "BusinessDays (Until (New (time_Date 1700 1 1 0 0 0 0) None) (New (time_Date 2000 1 1 0 0 0 0) None))
     = 76251
   \<and> 78265 \<le> int (businessDates (time_Date 1700 1 1 0 0 0 0) (time_Date 2000 1 1 0 0 0 0))"
proof -
  define d where "d = Until (New (time_Date 1700 1 1 0 0 0 0) None) (New (time_Date 2000 1 1 0 0 0 0) None)"
  have lt: "midnight 620547 < midnight 730119"
    using Time_Before_midnight[of 620547 730119] unfolding Time_Before_def by simp
  have mn: "min (midnight 620547) (midnight 730119) = midnight 620547"
    and mx: "max (midnight 620547) (midnight 730119) = midnight 730119"
    using lt by (simp_all add: min_def max_def)
  have s: "dayNumber (min (instant (start d)) (instant (end' d))) = 620547"
    unfolding d_def Until_def New_def Time_UTC_def midnight_1700 midnight_2000
    by (simp add: mn dayNumber_midnight)
  have e: "dayNumber (max (instant (start d)) (instant (end' d))) = 730119"
    unfolding d_def Until_def New_def Time_UTC_def midnight_1700 midnight_2000
    by (simp add: mx dayNumber_midnight)
  have "BusinessDays d = 76250 + (if isBusinessDay (midnight (620547 + 106750)) then 1 else 0)"
    by (rule BusinessDays_saturated[OF s e]) simp
  then have code: "BusinessDays d = 76251"
    by (simp add: isBusinessDay_midnight)
  have "5 * ((dayNumber (midnight 730119) - dayNumber (midnight 620547)) div 7)
        \<le> int (businessDates (midnight 620547) (midnight 730119))"
    using businessDates_weeks_le[of "midnight 620547" "midnight 730119"]
    unfolding mn mx .
  then have "78265 \<le> int (businessDates (midnight 620547) (midnight 730119))"
    unfolding dayNumber_midnight by simp
  with code show ?thesis
    unfolding d_def midnight_1700 midnight_2000 by simp
qed

text \<open>Where \<^verbatim>\<open>Sub\<close> is exact, up to 106751 days between the two UTC dates, the weeks
  and the remainder loop do give the count of Monday to Friday dates from the date of the
  earlier instant up to, and without, the date of the later one.\<close>

lemma BusinessDays_counts:
  assumes "\<bar>dayNumber (instant (end' d)) - dayNumber (instant (start d))\<bar> \<le> 106751"
  shows "BusinessDays d = int (businessDates (instant (start d)) (instant (end' d)))"
proof -
  have "dayNumber (max (instant (start d)) (instant (end' d)))
        - dayNumber (min (instant (start d)) (instant (end' d))) \<le> 106751"
    using assms by (auto simp: min_def max_def)
  from BusinessDays_midnight[OF refl refl this] show ?thesis
    unfolding businessDates_def .
qed

lemma BusinessDays_Monday_to_Friday:
  "\<bar>dayNumber (time_Date 2024 1 19 10 0 0 0) - dayNumber (time_Date 2024 1 15 10 0 0 0)\<bar>
       \<le> 106751
   \<and> BusinessDays (Until (New (time_Date 2024 1 15 10 0 0 0) None)
                       (New (time_Date 2024 1 19 10 0 0 0) None)) = 4"
proof -
  have h: "\<bar>dayNumber (time_Date 2024 1 19 10 0 0 0) - dayNumber (time_Date 2024 1 15 10 0 0 0)\<bar>
       \<le> 106751"
    unfolding dayNumber_2024_01_15 dayNumber_2024_01_19 by simp
  from BusinessDays_counts
    [of "Until (New (time_Date 2024 1 15 10 0 0 0) None) (New (time_Date 2024 1 19 10 0 0 0) None)"]
    h
  have "BusinessDays (Until (New (time_Date 2024 1 15 10 0 0 0) None)
                        (New (time_Date 2024 1 19 10 0 0 0) None))
        = int (businessDates (time_Date 2024 1 15 10 0 0 0) (time_Date 2024 1 19 10 0 0 0))"
    by (simp add: Until_def New_def Time_UTC_def)
  with h show ?thesis
    unfolding businessDates_Monday_to_Friday by simp
qed

section \<open>Integer timestamps\<close>

text \<open>C4. Reading the Unix seconds of the instant built from the Unix seconds \<open>s\<close>
  gives \<open>s\<close> back, for every \<^verbatim>\<open>int64\<close> and every zone (nil too): the two additions
  of \<^verbatim>\<open>unixToInternal\<close> and \<^verbatim>\<open>internalToUnix\<close> cancel in \<^verbatim>\<open>int64\<close>.\<close>

theorem ToDatabase_FromDatabase: "ToDatabase (FromDatabase s Z) = s"
  by (simp add: ToDatabase_def FromDatabase_def New_def Time_UTC_def time_Unix_def
      Time_Unix_def nanosPerSecond_def)

section \<open>Comparison\<close>

text \<open>C9. Two \<^verbatim>\<open>Zeit\<close> made from the same time value in two zones are \<^verbatim>\<open>Equal\<close>, and
  \<^verbatim>\<open>Equal\<close>, \<^verbatim>\<open>Before\<close> and \<^verbatim>\<open>After\<close> do not change when either side is moved to
  another zone with \<^verbatim>\<open>In\<close>.\<close>

theorem Equal_ignores_zone:
  "Equal (New t Z1) (New t Z2)
   \<and> Equal (In a Z1) (In b Z2) = Equal a b
   \<and> Before (In a Z1) (In b Z2) = Before a b
   \<and> After (In a Z1) (In b Z2) = After a b"
  by (simp add: Equal_def Before_def After_def New_def In_def Time_Equal_def)

section \<open>Periods\<close>

text \<open>C8, as stated, at a period whose two ends are the same instant: it does not
  contain its start.\<close>

theorem Contains_start_counterexample:
  "\<not> Contains \<lparr>StartsAt = New 10 None, EndsAt = New 10 None\<rparr> (New 10 None)"
  by (simp add: Contains_def Before_def Time_Before_def)

text \<open>C8, amended. \<^verbatim>\<open>Contains\<close> holds exactly when the instant is at or after the start
  and before the end; the end is never contained; the start is contained when it is
  before the end.\<close>

theorem Contains_half_open:
  "Contains p t = (instant (StartsAt p) \<le> instant t \<and> instant t < instant (EndsAt p))
   \<and> \<not> Contains p (EndsAt p)
   \<and> (instant (StartsAt p) < instant (EndsAt p) \<longrightarrow> Contains p (StartsAt p))"
  by (auto simp: Contains_def Before_def Time_Before_def)

theorem Contains_half_open_witness:
  "Contains \<lparr>StartsAt = New 10 None, EndsAt = New 20 None\<rparr> (New 10 None)
   \<and> \<not> Contains \<lparr>StartsAt = New 10 None, EndsAt = New 20 None\<rparr> (New 20 None)"
  using Contains_half_open [of "\<lparr>StartsAt = New 10 None, EndsAt = New 20 None\<rparr>" "New 10 None"]
  by (simp add: New_def Time_UTC_def)

section \<open>Scan\<close>

text \<open>C10. When \<^verbatim>\<open>Scan\<close> returns an error the receiver is as it was before the call.\<close>

theorem Scan_error_keeps_receiver:
  "snd (Scan impl z src) \<noteq> None \<longrightarrow> fst (Scan impl z src) = z"
  by (cases src) (simp_all add: Scan_def)

theorem Scan_error_keeps_receiver_witness:
  "snd (Scan (\<lambda>v. 0) \<lparr>instant = 5, location = Some (Zone ''Europe/Berlin'')\<rparr> SrcNil)
     = Some ErrScanNil
   \<and> fst (Scan (\<lambda>v. 0) \<lparr>instant = 5, location = Some (Zone ''Europe/Berlin'')\<rparr> SrcNil)
       = \<lparr>instant = 5, location = Some (Zone ''Europe/Berlin'')\<rparr>"
  using Scan_error_keeps_receiver
    [of "\<lambda>v. 0" "\<lparr>instant = 5, location = Some (Zone ''Europe/Berlin'')\<rparr>" SrcNil]
  by (simp add: Scan_def)

text \<open>C3, as stated, at the \<^verbatim>\<open>float64\<close> 1.5: it is not a whole number, and \<^verbatim>\<open>Scan\<close>
  succeeds on it.\<close>

theorem Scan_float_counterexample:
  "snd (Scan (\<lambda>v. 0) \<lparr>instant = 5, location = None\<rparr> (SrcFloat64 (Finite (3 / 2)))) = None
   \<and> \<not> lossless_integer (Finite (3 / 2))"
  by (simp add: Scan_def lossless_integer_def)

text \<open>C3, amended. \<^verbatim>\<open>Scan\<close> succeeds exactly when the input is an \<^verbatim>\<open>int64\<close> or a
  \<^verbatim>\<open>float64\<close>, whatever the \<^verbatim>\<open>float64\<close> is; on success the location is UTC; nil and
  every other type give an error.\<close>

theorem Scan_succeeds_iff:
  "(snd (Scan impl z src) = None)
     = (case src of SrcInt64 v \<Rightarrow> True | SrcFloat64 v \<Rightarrow> True
        | SrcNil \<Rightarrow> False | SrcOther ty \<Rightarrow> False)
   \<and> (snd (Scan impl z src) = None \<longrightarrow> location (fst (Scan impl z src)) = Some UTC)
   \<and> snd (Scan impl z SrcNil) = Some ErrScanNil
   \<and> snd (Scan impl z (SrcOther ty)) = Some (ErrScanType ty)"
  by (cases src) (simp_all add: Scan_def)

theorem Scan_succeeds_iff_witness:
  "snd (Scan (\<lambda>v. 0) \<lparr>instant = 5, location = None\<rparr> (SrcInt64 1705318200)) = None
   \<and> location (fst (Scan (\<lambda>v. 0) \<lparr>instant = 5, location = None\<rparr> (SrcInt64 1705318200)))
       = Some UTC"
  using Scan_succeeds_iff [of "\<lambda>v. 0" "\<lparr>instant = 5, location = None\<rparr>" "SrcInt64 1705318200"]
  by simp

section \<open>Months\<close>

text \<open>The scenario of the specification: from 2024-01-15 to 2024-02-14 no month has
  passed, to 2024-02-15 one has, in either order.\<close>

lemma Time_Date_scenario:
  "Time_Date (time_Date 2024 1 15 0 0 0 0) = (2024, 1, 15)"
  "Time_Date (time_Date 2024 2 14 0 0 0 0) = (2024, 2, 14)"
  "Time_Date (time_Date 2024 2 15 0 0 0 0) = (2024, 2, 15)"
  by code_simp+

lemma time_Date_scenario_order:
  "time_Date 2024 1 15 0 0 0 0 < time_Date 2024 2 14 0 0 0 0"
  "time_Date 2024 1 15 0 0 0 0 < time_Date 2024 2 15 0 0 0 0"
  by code_simp+

lemma Months_scenario:
  "Months (Until (New (time_Date 2024 1 15 0 0 0 0) None) (New (time_Date 2024 2 14 0 0 0 0) None)) = 0"
  "Months (Until (New (time_Date 2024 1 15 0 0 0 0) None) (New (time_Date 2024 2 15 0 0 0 0) None)) = 1"
  "Months (Until (New (time_Date 2024 2 15 0 0 0 0) None) (New (time_Date 2024 1 15 0 0 0 0) None)) = 1"
  using time_Date_scenario_order
  by (simp_all add: Months_def ordered_def Until_def New_def Time_UTC_def Time_After_def
      Time_Year_def Time_Month_def Time_Day_def Time_Date_scenario)

text \<open>C6. \<^verbatim>\<open>Months\<close> is the specification's formula on the two instants, the earlier
  one taken as start whichever was passed first.\<close>

theorem Months_is_months_spec:
  "Months d = months_spec (instant (start d)) (instant (end' d))"
  by (simp add: Months_def months_spec_def ordered_def Time_After_def Let_def min_def max_def)

section \<open>Cycles\<close>

lemma Cycles_loop_length: "length (Cycles_loop n interval current) = n"
  by (induction n arbitrary: current) simp_all

lemma Cycles_loop_first: "0 < n \<Longrightarrow> StartsAt (Cycles_loop n interval current ! 0) = current"
  by (cases n) simp_all

lemma Cycles_loop_contiguous:
  "Suc i < n \<Longrightarrow> EndsAt (Cycles_loop n interval current ! i)
                  = StartsAt (Cycles_loop n interval current ! Suc i)"
proof (induction n arbitrary: current i)
  case 0
  then show ?case by simp
next
  case (Suc n)
  show ?case
  proof (cases i)
    case 0
    with Suc.prems obtain m where "n = Suc m" by (cases n) auto
    with 0 show ?thesis by simp
  next
    case (Suc j)
    with Suc.prems have "Suc j < n" by simp
    from Suc.IH[OF this] Suc show ?thesis by simp
  qed
qed

text \<open>C5. A count of 0 or less gives no period. Otherwise there are exactly \<open>count\<close>
  periods, the first starts at the anchor, and every period ends where the next one
  starts.\<close>

theorem Cycles_contiguous:
  "(sint count \<le> 0 \<longrightarrow> Cycles z count interval = [])
   \<and> (0 < sint count \<longrightarrow>
        length (Cycles z count interval) = nat (sint count)
        \<and> StartsAt (Cycles z count interval ! 0) = z
        \<and> (\<forall>i. Suc i < nat (sint count) \<longrightarrow>
              EndsAt (Cycles z count interval ! i) = StartsAt (Cycles z count interval ! Suc i)))"
  by (simp add: Cycles_def Cycles_loop_length Cycles_loop_first Cycles_loop_contiguous)

theorem Cycles_contiguous_witness:
  "length (Cycles (New 0 None) 3 Monthly) = 3
   \<and> StartsAt (Cycles (New 0 None) 3 Monthly ! 0) = New 0 None
   \<and> EndsAt (Cycles (New 0 None) 3 Monthly ! 0) = StartsAt (Cycles (New 0 None) 3 Monthly ! Suc 0)
   \<and> EndsAt (Cycles (New 0 None) 3 Monthly ! Suc 0)
       = StartsAt (Cycles (New 0 None) 3 Monthly ! Suc (Suc 0))
   \<and> Cycles (New 0 None) 0 Monthly = []"
proof -
  have pos: "0 < sint (3 :: go_int)" by simp
  have zero: "sint (0 :: go_int) \<le> 0" by simp
  note c = Cycles_contiguous [of 3 "New 0 None" Monthly]
  from c pos have len: "length (Cycles (New 0 None) 3 Monthly) = 3"
    and first: "StartsAt (Cycles (New 0 None) 3 Monthly ! 0) = New 0 None"
    and all: "\<forall>i. Suc i < nat (sint (3 :: go_int)) \<longrightarrow>
        EndsAt (Cycles (New 0 None) 3 Monthly ! i) = StartsAt (Cycles (New 0 None) 3 Monthly ! Suc i)"
    by simp_all
  from all have c0: "EndsAt (Cycles (New 0 None) 3 Monthly ! 0)
      = StartsAt (Cycles (New 0 None) 3 Monthly ! Suc 0)"
    by simp
  from all have c1: "EndsAt (Cycles (New 0 None) 3 Monthly ! Suc 0)
      = StartsAt (Cycles (New 0 None) 3 Monthly ! Suc (Suc 0))"
    by simp
  from Cycles_contiguous [of 0 "New 0 None" Monthly] zero
  have "Cycles (New 0 None) 0 Monthly = []" by simp
  with len first c0 c1 show ?thesis by simp
qed

text \<open>C1, at the anchor 2024-01-31T10:00:00Z with two monthly periods: the first period
  ends on 2024-03-02, not on 2024-02-29. \<^verbatim>\<open>AddDate(0, 1, 0)\<close> moves January 31 to
  February 31, which \<^verbatim>\<open>Date\<close> normalizes to March 2.\<close>

theorem Cycles_Monthly_Jan31:
  "EndsAt (Cycles (New (time_Date 2024 1 31 10 0 0 0) (Some UTC)) 2 Monthly ! 0)
     = New (time_Date 2024 3 2 10 0 0 0) (Some UTC)
   \<and> EndsAt (Cycles (New (time_Date 2024 1 31 10 0 0 0) (Some UTC)) 2 Monthly ! 0)
     \<noteq> New (time_Date 2024 2 29 10 0 0 0) (Some UTC)
   \<and> Time_Date (time_Date 2024 3 2 10 0 0 0) = (2024, 3, 2)
   \<and> Time_Date (time_Date 2024 1 31 10 0 0 0) = (2024, 1, 31)"
  by code_simp

end
